theory Spec2Isabelle
  imports Main "HOL-Library.Multiset"
begin

section \<open>ConnectX mesh relay engine (client/services/meshService.js)\<close>

text \<open>
  A shallow embedding of the \<^verbatim>\<open>MeshService\<close> class and of the parts of the two
  transport adapters (\<^verbatim>\<open>BluetoothService\<close>, \<^verbatim>\<open>WiFiDirectService\<close>) that it calls.
  Mutation of \<^verbatim>\<open>this\<close> is explicit state passing. A call of \<^verbatim>\<open>notifyListeners\<close> and a
  call of an adapter's \<^verbatim>\<open>sendMessage\<close> are recorded, in program order, in a list of
  effects that every operation returns. Each \<^verbatim>\<open>Date.now()\<close> of the source is a
  separate argument of the model, named after the place that reads the clock.
\<close>

subsection \<open>JavaScript values\<close>

text \<open>
  An absent (or \<^verbatim>\<open>null\<close>) field is \<open>None\<close>. JavaScript's truthiness test, which the
  source applies to strings and numbers: the empty string and the number zero are falsy.
\<close>

definition truthy_str :: "string option \<Rightarrow> bool" where
  "truthy_str v = (case v of None \<Rightarrow> False | Some s \<Rightarrow> s \<noteq> [])"

definition truthy_num :: "int option \<Rightarrow> bool" where
  "truthy_num v = (case v of None \<Rightarrow> False | Some n \<Rightarrow> n \<noteq> 0)"

datatype js_error = Error string

text \<open>The settled state of a promise, as \<^verbatim>\<open>await\<close> and \<^verbatim>\<open>Promise.allSettled\<close> see it.\<close>

datatype 'a promise = Fulfilled 'a | Rejected js_error

definition allSettled :: "'a promise list \<Rightarrow> ('a promise list) promise" where
  "allSettled ps = Fulfilled ps"

text \<open>Decimal rendering of a number inside a template literal.\<close>

fun digits :: "nat \<Rightarrow> string" where
  "digits n =
     (if n < 10 then [char_of (48 + n)]
      else digits (n div 10) @ [char_of (48 + n mod 10)])"

declare digits.simps [simp del]

definition toString :: "int \<Rightarrow> string" where
  "toString i = (if i < 0 then CHR ''-'' # digits (nat (- i)) else digits (nat i))"

subsection \<open>Data model\<close>

datatype transport = Bluetooth | WifiDirect

type_synonym location = "int \<times> int"

text \<open>The wire message: every field may be missing from the parsed JSON object.\<close>

record message =
  msg_id :: "string option"
  msg_type :: "string option"
  msg_userId :: "string option"
  msg_username :: "string option"
  msg_groupId :: "string option"
  msg_content :: "string option"
  msg_location :: "location option"
  msg_timestamp :: "int option"
  msg_ttl :: "int option"

text \<open>A cache entry is \<^verbatim>\<open>{...message, expires}\<close>.\<close>

record cache_entry =
  entry_message :: message
  expires :: int

text \<open>A node registry value is \<^verbatim>\<open>{ type, info, connectedAt }\<close>.\<close>

record node =
  node_type :: transport
  node_info :: string
  connectedAt :: int

text \<open>
  The fields of \<^verbatim>\<open>MeshService\<close>. \<^verbatim>\<open>nodes\<close> is a JavaScript \<^verbatim>\<open>Map\<close> that the code
  iterates, so it is an association list in insertion order; \<^verbatim>\<open>messages\<close> is only
  looked up and updated by key.
\<close>

record mesh_state =
  nodes :: "(string \<times> node) list"
  messages :: "string \<rightharpoonup> cache_entry"
  userId :: "string option"
  groupId :: "string option"
  username :: "string option"
  location :: "location option"
  locationUpdateTimer :: bool

text \<open>
  \<^verbatim>\<open>this.messageTimeout = 60000\<close> is assigned in the constructor and nowhere else.
\<close>

definition messageTimeout :: int where
  "messageTimeout = 60000"

datatype event =
    Initialized "string option" "string option" "string option"
  | NetworkingStarted bool bool
  | NetworkingError js_error
  | NetworkingStopped
  | LocationUpdated "string option" location
  | MessageSent message
  | NodeConnected transport string string
  | NodeDisconnected transport string
  | MessageReceived string message
  | LocationReceived string "string option" "location option"
  | UserInfo string "string option" "string option"

datatype effect =
    Notify event
  | Send transport string message

fun is_Notify :: "effect \<Rightarrow> bool" where
  "is_Notify (Notify _) = True"
| "is_Notify (Send _ _ _) = False"

fun is_Send :: "effect \<Rightarrow> bool" where
  "is_Send (Send _ _ _) = True"
| "is_Send (Notify _) = False"

definition events :: "effect list \<Rightarrow> effect list" where
  "events fx = filter is_Notify fx"

definition sends :: "effect list \<Rightarrow> effect list" where
  "sends fx = filter is_Send fx"

text \<open>
  What an adapter's asynchronous \<^verbatim>\<open>sendMessage(nodeId, message)\<close> settles to. Both
  adapters are \<^verbatim>\<open>async\<close> functions, so a failure (device not connected, write error)
  is a rejected promise and never a synchronous exception.
\<close>

type_synonym adapter_send = "transport \<Rightarrow> string \<Rightarrow> message \<Rightarrow> bool promise"

subsection \<open>Constructor, initialize, node registry\<close>

definition constructor :: mesh_state where
  "constructor = \<lparr>nodes = [], messages = Map.empty, userId = None, groupId = None,
     username = None, location = None, locationUpdateTimer = False\<rparr>"

definition initialized :: "mesh_state \<Rightarrow> bool" where
  "initialized s = (truthy_str (userId s) \<and> truthy_str (groupId s))"

definition initialize ::
  "mesh_state \<Rightarrow> string option \<Rightarrow> string option \<Rightarrow> string option \<Rightarrow> mesh_state \<times> effect list \<times> bool"
where
  "initialize s uid uname gid =
     (s\<lparr>userId := uid, username := uname, groupId := gid, nodes := [], messages := Map.empty,
        locationUpdateTimer := True\<rparr>,
      [Notify (Initialized uid uname gid)], True)"

text \<open>\<^verbatim>\<open>Map.prototype.set\<close>: an existing key keeps its position, a new key goes last.\<close>

fun map_set :: "string \<Rightarrow> 'v \<Rightarrow> (string \<times> 'v) list \<Rightarrow> (string \<times> 'v) list" where
  "map_set k v [] = [(k, v)]"
| "map_set k v ((k', v') # kvs) = (if k' = k then (k, v) # kvs else (k', v') # map_set k v kvs)"

definition map_has :: "string \<Rightarrow> (string \<times> 'v) list \<Rightarrow> bool" where
  "map_has k kvs = (k \<in> set (map fst kvs))"

definition map_delete :: "string \<Rightarrow> (string \<times> 'v) list \<Rightarrow> (string \<times> 'v) list" where
  "map_delete k kvs = filter (\<lambda>kv. fst kv \<noteq> k) kvs"

subsection \<open>broadcastMessage\<close>

text \<open>
  The two \<^verbatim>\<open>forEach\<close> loops over \<^verbatim>\<open>this.nodes\<close>: each pushes the promise of one adapter
  call. The result lists the calls (as effects) with what each settles to.
\<close>

fun send_loop ::
  "transport \<Rightarrow> adapter_send \<Rightarrow> message \<Rightarrow> (string \<times> node) list \<Rightarrow> (effect \<times> bool promise) list"
where
  "send_loop t xmit m [] = []"
| "send_loop t xmit m ((nodeId, n) # ns) =
     (if node_type n = t then (Send t nodeId m, xmit t nodeId m) # send_loop t xmit m ns
      else send_loop t xmit m ns)"

definition cache_put :: "mesh_state \<Rightarrow> string \<Rightarrow> message \<Rightarrow> int \<Rightarrow> mesh_state" where
  "cache_put s k m now =
     s\<lparr>messages := (messages s)(k \<mapsto> \<lparr>entry_message = m, expires = now + messageTimeout\<rparr>)\<rparr>"

definition broadcastMessage ::
  "mesh_state \<Rightarrow> adapter_send \<Rightarrow> int \<Rightarrow> message \<Rightarrow> mesh_state \<times> effect list \<times> unit promise"
where
  "broadcastMessage s xmit now m =
     (if \<not> truthy_str (userId s) \<or> \<not> truthy_str (groupId s) then (s, [], Fulfilled ())
      else
        let s1 = (case msg_id m of
                    None \<Rightarrow> s
                  | Some k \<Rightarrow> if k \<noteq> [] \<and> messages s k = None then cache_put s k m now else s);
            bluetoothPromises = send_loop Bluetooth xmit m (nodes s1);
            wifiDirectPromises = send_loop WifiDirect xmit m (nodes s1)
        in (s1, map fst (bluetoothPromises @ wifiDirectPromises),
            case allSettled (map snd (bluetoothPromises @ wifiDirectPromises)) of
              Fulfilled _ \<Rightarrow> Fulfilled ()
            | Rejected e \<Rightarrow> Rejected e))"

text \<open>
  The adapter calls of one \<^verbatim>\<open>broadcastMessage\<close>, in the order it makes them: the
  Bluetooth loop first, then the Wi-Fi Direct loop.
\<close>

definition fan_out :: "mesh_state \<Rightarrow> message \<Rightarrow> effect list" where
  "fan_out s m =
     map (\<lambda>kv. Send Bluetooth (fst kv) m) (filter (\<lambda>kv. node_type (snd kv) = Bluetooth) (nodes s)) @
     map (\<lambda>kv. Send WifiDirect (fst kv) m) (filter (\<lambda>kv. node_type (snd kv) = WifiDirect) (nodes s))"

subsection \<open>Node events\<close>

text \<open>
  \<^verbatim>\<open>handleNodeConnected\<close> reads the clock for \<^verbatim>\<open>connectedAt\<close>, for the timestamp of
  the presence message and for the timestamp of the location message.
\<close>

definition adapter_call :: "transport \<Rightarrow> string \<Rightarrow> message \<Rightarrow> effect list" where
  "adapter_call t nodeId m = [Send t nodeId m]"

definition handleNodeConnected ::
  "mesh_state \<Rightarrow> int \<Rightarrow> int \<Rightarrow> int \<Rightarrow> transport \<Rightarrow> string \<Rightarrow> string \<Rightarrow> mesh_state \<times> effect list"
where
  "handleNodeConnected s tConnected tUser tLocation t nodeId info =
     (let s1 = s\<lparr>nodes := map_set nodeId
                   \<lparr>node_type = t, node_info = info, connectedAt = tConnected\<rparr> (nodes s)\<rparr>;
          fx = [Notify (NodeConnected t nodeId info)]
      in if truthy_str (userId s1) \<and> truthy_str (groupId s1) then
           let userInfo = \<lparr>msg_id = None, msg_type = Some ''user'', msg_userId = userId s1,
                 msg_username = username s1, msg_groupId = groupId s1, msg_content = None,
                 msg_location = None, msg_timestamp = Some tUser, msg_ttl = None\<rparr>;
               fx1 = fx @ adapter_call t nodeId userInfo
           in (case location s1 of
                 None \<Rightarrow> (s1, fx1)
               | Some loc \<Rightarrow>
                   let locationInfo = \<lparr>msg_id = None, msg_type = Some ''location'',
                         msg_userId = userId s1, msg_username = username s1,
                         msg_groupId = groupId s1, msg_content = None, msg_location = Some loc,
                         msg_timestamp = Some tLocation, msg_ttl = None\<rparr>
                   in (s1, fx1 @ adapter_call t nodeId locationInfo))
         else (s1, fx))"

definition handleNodeDisconnected ::
  "mesh_state \<Rightarrow> transport \<Rightarrow> string \<Rightarrow> mesh_state \<times> effect list"
where
  "handleNodeDisconnected s t nodeId =
     (if map_has nodeId (nodes s)
      then (s\<lparr>nodes := map_delete nodeId (nodes s)\<rparr>, [Notify (NodeDisconnected t nodeId)])
      else (s, []))"

subsection \<open>sendMessage\<close>

text \<open>
  \<^verbatim>\<open>sendMessage\<close> reads the clock for the identifier, for the timestamp and for the
  expiry of the cache entry; \<open>rnd\<close> is \<^verbatim>\<open>Math.random().toString(36).substr(2, 9)\<close>.
  The call of \<^verbatim>\<open>broadcastMessage\<close> is not awaited: its synchronous part (the cache
  check and the adapter calls) runs before \<^verbatim>\<open>messageSent\<close> is notified.
\<close>

definition template_str :: "string option \<Rightarrow> string" where
  "template_str v = (case v of None \<Rightarrow> ''null'' | Some s \<Rightarrow> s)"

definition new_id :: "mesh_state \<Rightarrow> int \<Rightarrow> string \<Rightarrow> string" where
  "new_id s tId rnd = template_str (userId s) @ ''-'' @ toString tId @ ''-'' @ rnd"

definition messageData :: "mesh_state \<Rightarrow> int \<Rightarrow> string \<Rightarrow> int \<Rightarrow> string \<Rightarrow> message" where
  "messageData s tId rnd tStamp content =
     \<lparr>msg_id = Some (new_id s tId rnd), msg_type = Some ''message'', msg_userId = userId s,
      msg_username = username s, msg_groupId = groupId s, msg_content = Some content,
      msg_location = None, msg_timestamp = Some tStamp, msg_ttl = Some messageTimeout\<rparr>"

definition sendMessage ::
  "mesh_state \<Rightarrow> adapter_send \<Rightarrow> int \<Rightarrow> string \<Rightarrow> int \<Rightarrow> int \<Rightarrow> int \<Rightarrow> string \<Rightarrow>
     js_error + (mesh_state \<times> effect list \<times> string)"
where
  "sendMessage s xmit tId rnd tStamp tExpires tBroadcast content =
     (if \<not> truthy_str (userId s) \<or> \<not> truthy_str (groupId s)
      then Inl (Error ''Mesh network not initialized'')
      else
        let md = messageData s tId rnd tStamp content;
            s1 = cache_put s (new_id s tId rnd) md tExpires
        in (case broadcastMessage s1 xmit tBroadcast md of
              (s2, fx, _) \<Rightarrow> Inr (s2, fx @ [Notify (MessageSent md)], new_id s tId rnd)))"

subsection \<open>handleMessageReceived\<close>

text \<open>The \<^verbatim>\<open>switch (message.type)\<close>: three cases and no default.\<close>

definition dispatch :: "string \<Rightarrow> message \<Rightarrow> effect list" where
  "dispatch nodeId m =
     (case msg_type m of
        None \<Rightarrow> []
      | Some t \<Rightarrow>
          if t = ''message'' then [Notify (MessageReceived nodeId m)]
          else if t = ''location''
            then [Notify (LocationReceived nodeId (msg_userId m) (msg_location m))]
          else if t = ''user'' then [Notify (UserInfo nodeId (msg_userId m) (msg_username m))]
          else [])"

text \<open>
  \<^verbatim>\<open>message.ttl && message.timestamp && (Date.now() - message.timestamp < message.ttl)\<close>
\<close>

definition relay_ok :: "message \<Rightarrow> int \<Rightarrow> bool" where
  "relay_ok m now =
     (truthy_num (msg_ttl m) \<and> truthy_num (msg_timestamp m) \<and>
      (case msg_timestamp m of
         None \<Rightarrow> False
       | Some ts \<Rightarrow> (case msg_ttl m of None \<Rightarrow> False | Some ttl \<Rightarrow> now - ts < ttl)))"

text \<open>\<^verbatim>\<open>message.id && this.messages.has(message.id)\<close>\<close>

definition is_duplicate :: "mesh_state \<Rightarrow> message \<Rightarrow> bool" where
  "is_duplicate s m =
     (case msg_id m of None \<Rightarrow> False | Some k \<Rightarrow> k \<noteq> [] \<and> messages s k \<noteq> None)"

text \<open>
  The clock is read for the expiry of the cache entry (\<open>tCache\<close>), for the relay test
  (\<open>tRelay\<close>) and inside \<^verbatim>\<open>broadcastMessage\<close> (\<open>tBroadcast\<close>). The first argument of
  the source, the transport kind, is not used by its body.
\<close>

definition handleMessageReceived ::
  "mesh_state \<Rightarrow> adapter_send \<Rightarrow> int \<Rightarrow> int \<Rightarrow> int \<Rightarrow> transport \<Rightarrow> string \<Rightarrow> message \<Rightarrow>
     mesh_state \<times> effect list"
where
  "handleMessageReceived s xmit tCache tRelay tBroadcast t nodeId m =
     (if \<not> truthy_str (userId s) \<or> \<not> truthy_str (groupId s) then (s, [])
      else if truthy_str (msg_groupId m) \<and> msg_groupId m \<noteq> groupId s then (s, [])
      else if is_duplicate s m then (s, [])
      else
        let s1 = (case msg_id m of
                    None \<Rightarrow> s
                  | Some k \<Rightarrow> if k \<noteq> [] then cache_put s k m tCache else s);
            fx = dispatch nodeId m
        in if relay_ok m tRelay
           then (case broadcastMessage s1 xmit tBroadcast m of (s2, fx2, _) \<Rightarrow> (s2, fx @ fx2))
           else (s1, fx))"

subsection \<open>Transport adapters and startNetworking\<close>

text \<open>
  What the native modules answer during one run of \<^verbatim>\<open>startNetworking\<close>, in call order:
  the Bluetooth permission request, \<^verbatim>\<open>bleManager.startDeviceScan\<close> (which may throw),
  \<^verbatim>\<open>wifiDirectModule.isAvailable\<close> as called by the engine and again inside
  \<^verbatim>\<open>startDiscovery\<close>, the Wi-Fi Direct permission request and
  \<^verbatim>\<open>wifiDirectModule.startDiscovery\<close>.
\<close>

record native_env =
  btRequestPermissions :: "bool promise"
  btStartDeviceScan :: "unit promise"
  wifiIsAvailable :: "bool promise"
  wifiIsAvailableAgain :: "bool promise"
  wifiRequestPermissions :: "bool promise"
  wifiStartDiscovery :: "unit promise"

record adapters =
  isScanning :: bool
  isInitialized :: bool
  isDiscovering :: bool

text \<open>
  \<^verbatim>\<open>BluetoothService.startScan\<close>: the whole body is inside \<^verbatim>\<open>try\<close>, and the
  \<^verbatim>\<open>catch\<close> does not rethrow, so the promise is always fulfilled.
\<close>

definition bt_startScan :: "native_env \<Rightarrow> adapters \<Rightarrow> adapters \<times> unit promise" where
  "bt_startScan env a =
     (case btRequestPermissions env of
        Rejected e \<Rightarrow> (a\<lparr>isScanning := False\<rparr>, Fulfilled ())
      | Fulfilled hasPermission \<Rightarrow>
          if \<not> hasPermission then (a\<lparr>isScanning := False\<rparr>, Fulfilled ())
          else if isScanning a then (a, Fulfilled ())
          else (case btStartDeviceScan env of
                  Rejected e \<Rightarrow> (a\<lparr>isScanning := False\<rparr>, Fulfilled ())
                | Fulfilled _ \<Rightarrow> (a\<lparr>isScanning := True\<rparr>, Fulfilled ())))"

text \<open>\<^verbatim>\<open>WiFiDirectService.isAvailable\<close> and \<^verbatim>\<open>requestPermissions\<close> turn a rejection into \<^verbatim>\<open>false\<close>.\<close>

definition wifi_isAvailable :: "adapters \<Rightarrow> bool promise \<Rightarrow> bool" where
  "wifi_isAvailable a answer =
     (if \<not> isInitialized a then False
      else (case answer of Fulfilled b \<Rightarrow> b | Rejected e \<Rightarrow> False))"

definition wifi_requestPermissions :: "adapters \<Rightarrow> bool promise \<Rightarrow> bool" where
  "wifi_requestPermissions a answer =
     (if \<not> isInitialized a then False
      else (case answer of Fulfilled b \<Rightarrow> b | Rejected e \<Rightarrow> False))"

definition wifi_startDiscovery :: "native_env \<Rightarrow> adapters \<Rightarrow> adapters \<times> bool promise" where
  "wifi_startDiscovery env a =
     (if \<not> isInitialized a then (a, Rejected (Error ''WiFi Direct not initialized''))
      else if \<not> wifi_isAvailable a (wifiIsAvailableAgain env)
        then (a\<lparr>isDiscovering := False\<rparr>, Rejected (Error ''WiFi Direct not available''))
      else if \<not> wifi_requestPermissions a (wifiRequestPermissions env)
        then (a\<lparr>isDiscovering := False\<rparr>,
              Rejected (Error ''WiFi Direct permissions not granted''))
      else (case wifiStartDiscovery env of
              Rejected e \<Rightarrow> (a\<lparr>isDiscovering := False\<rparr>, Rejected e)
            | Fulfilled _ \<Rightarrow> (a\<lparr>isDiscovering := True\<rparr>, Fulfilled True)))"

text \<open>
  \<^verbatim>\<open>MeshService.startNetworking\<close>: one \<^verbatim>\<open>try\<close> around both adapters; any rejection
  that reaches it is reported as \<^verbatim>\<open>networkingError\<close>.
\<close>

definition startNetworking :: "native_env \<Rightarrow> adapters \<Rightarrow> adapters \<times> effect list \<times> bool" where
  "startNetworking env a =
     (case bt_startScan env a of
        (a1, Rejected error) \<Rightarrow> (a1, [Notify (NetworkingError error)], False)
      | (a1, Fulfilled _) \<Rightarrow>
          let wifiDirectAvailable = wifi_isAvailable a1 (wifiIsAvailable env)
          in if wifiDirectAvailable then
               (case wifi_startDiscovery env a1 of
                  (a2, Rejected error) \<Rightarrow> (a2, [Notify (NetworkingError error)], False)
                | (a2, Fulfilled _) \<Rightarrow>
                    (a2, [Notify (NetworkingStarted True wifiDirectAvailable)], True))
             else (a1, [Notify (NetworkingStarted True wifiDirectAvailable)], True))"

subsection \<open>A concrete session\<close>

text \<open>
  The engine is initialised as user \<open>u1\<close> (Alice) in group \<open>g1\<close>; one peer connects over
  Bluetooth and one over Wi-Fi Direct. The Bluetooth adapter rejects every send.
\<close>

definition ex_state :: mesh_state where
  "ex_state =
     (let s0 = fst (initialize constructor (Some ''u1'') (Some ''Alice'') (Some ''g1''));
          s1 = fst (handleNodeConnected s0 10 10 10 Bluetooth ''bt1'' ''phone'')
      in fst (handleNodeConnected s1 20 20 20 WifiDirect ''wd1'' ''tablet''))"

definition ex_xmit :: adapter_send where
  "ex_xmit t nodeId m =
     (if t = Bluetooth then Rejected (Error ''Device not connected'') else Fulfilled True)"

definition ex_message :: message where
  "ex_message = \<lparr>msg_id = Some ''m1'', msg_type = Some ''message'', msg_userId = Some ''u2'',
     msg_username = Some ''Bob'', msg_groupId = Some ''g1'', msg_content = Some ''hi'',
     msg_location = None, msg_timestamp = Some 1000, msg_ttl = Some 5000\<rparr>"

text \<open>Native answers: Bluetooth permitted and no scan running; Wi-Fi Direct present.\<close>

definition ex_adapters :: adapters where
  "ex_adapters = \<lparr>isScanning = False, isInitialized = True, isDiscovering = False\<rparr>"

definition ex_env :: native_env where
  "ex_env = \<lparr>btRequestPermissions = Fulfilled True, btStartDeviceScan = Fulfilled (),
     wifiIsAvailable = Fulfilled True, wifiIsAvailableAgain = Fulfilled True,
     wifiRequestPermissions = Fulfilled True, wifiStartDiscovery = Fulfilled ()\<rparr>"

text \<open>Variants of the chat message: another group, an empty group, no group, no type.\<close>

definition ex_foreign :: message where
  "ex_foreign = ex_message\<lparr>msg_id := Some ''m2'', msg_groupId := Some ''g2''\<rparr>"

definition ex_blank_group :: message where
  "ex_blank_group = ex_message\<lparr>msg_id := Some ''m3'', msg_groupId := Some ''''\<rparr>"



text \<open>The same native answers, with the Wi-Fi Direct permissions refused.\<close>

definition ex_env_denied :: native_env where
  "ex_env_denied = ex_env\<lparr>wifiRequestPermissions := Fulfilled False\<rparr>"

text \<open>
  A peer's message that carries the identifier \<open>u1-1000-k3x9\<close>, and the session after
  it has been received at time 900.
\<close>

definition ex_echo :: message where
  "ex_echo = ex_message\<lparr>msg_id := Some ''u1-1000-k3x9''\<rparr>"

definition ex_state_cached :: mesh_state where
  "ex_state_cached =
     fst (handleMessageReceived ex_state ex_xmit 900 900 900 Bluetooth ''bt1'' ex_echo)"

section \<open>Properties\<close>

subsection \<open>The concrete session\<close>

lemma ex_state_eq:
  "ex_state =
     \<lparr>nodes = [(''bt1'', \<lparr>node_type = Bluetooth, node_info = ''phone'', connectedAt = 10\<rparr>),
               (''wd1'', \<lparr>node_type = WifiDirect, node_info = ''tablet'', connectedAt = 20\<rparr>)],
      messages = Map.empty, userId = Some ''u1'', groupId = Some ''g1'',
      username = Some ''Alice'', location = None, locationUpdateTimer = True\<rparr>"
  by (simp add: ex_state_def initialize_def constructor_def handleNodeConnected_def Let_def
      truthy_str_def adapter_call_def)

lemma ex_state_initialized: "initialized ex_state"
  by (simp add: ex_state_eq initialized_def truthy_str_def)

lemma constructor_uninitialized: "\<not> initialized constructor"
  by (simp add: constructor_def initialized_def truthy_str_def)

subsection \<open>The node registry keeps one entry per node id\<close>

lemma map_set_keys: "fst ` set (map_set k v kvs) = insert k (fst ` set kvs)"
proof (induction kvs)
  case Nil
  show ?case by simp
next
  case (Cons kv kvs)
  obtain k' v' where kv: "kv = (k', v')" by (cases kv)
  show ?case
  proof (cases "k' = k")
    case True
    with kv show ?thesis by simp
  next
    case False
    with kv Cons.IH show ?thesis by (simp add: insert_commute)
  qed
qed

lemma map_set_distinct:
  "distinct (map fst kvs) \<Longrightarrow> distinct (map fst (map_set k v kvs))"
proof (induction kvs)
  case Nil
  show ?case by simp
next
  case (Cons kv kvs)
  obtain k' v' where kv: "kv = (k', v')" by (cases kv)
  show ?case
  proof (cases "k' = k")
    case True
    with Cons.prems kv show ?thesis by simp
  next
    case False
    with Cons kv show ?thesis by (simp add: map_set_keys)
  qed
qed

lemma map_delete_distinct:
  "distinct (map fst kvs) \<Longrightarrow> distinct (map fst (map_delete k kvs))"
  by (simp add: map_delete_def distinct_map_filter)

lemma handleNodeConnected_nodes:
  "nodes (fst (handleNodeConnected s tConnected tUser tLocation t nodeId info)) =
     map_set nodeId \<lparr>node_type = t, node_info = info, connectedAt = tConnected\<rparr> (nodes s)"
  by (simp add: handleNodeConnected_def Let_def split: option.split)

lemma registry_distinct:
  assumes "distinct (map fst (nodes s))"
  shows "distinct (map fst (nodes (fst (handleNodeConnected s tConnected tUser tLocation t nodeId info))))"
    and "distinct (map fst (nodes (fst (handleNodeDisconnected s t nodeId))))"
  using assms
  by (simp_all add: handleNodeConnected_nodes map_set_distinct handleNodeDisconnected_def
      map_delete_distinct)

subsection \<open>Broadcast fan-out\<close>

lemma send_loop_length:
  "length (send_loop t xmit m ns) = length (filter (\<lambda>kv. node_type (snd kv) = t) ns)"
  by (induction ns) auto

lemma send_loop_targets:
  "map fst (send_loop t xmit m ns) =
     map (\<lambda>kv. Send t (fst kv) m) (filter (\<lambda>kv. node_type (snd kv) = t) ns)"
  by (induction ns) auto

lemma transport_partition:
  "length (filter (\<lambda>kv. node_type (snd kv) = Bluetooth) ns) +
   length (filter (\<lambda>kv. node_type (snd kv) = WifiDirect) ns) = length ns"
proof (induction ns)
  case Nil
  show ?case by simp
next
  case (Cons kv ns)
  then show ?case by (cases "node_type (snd kv)") simp_all
qed

lemma transport_partition_mset:
  "mset (map (\<lambda>kv. Send Bluetooth (fst kv) m) (filter (\<lambda>kv. node_type (snd kv) = Bluetooth) ns)) +
   mset (map (\<lambda>kv. Send WifiDirect (fst kv) m) (filter (\<lambda>kv. node_type (snd kv) = WifiDirect) ns))
   = mset (map (\<lambda>kv. Send (node_type (snd kv)) (fst kv) m) ns)"
proof (induction ns)
  case Nil
  show ?case by simp
next
  case (Cons kv ns)
  then show ?case by (cases "node_type (snd kv)") simp_all
qed

lemma cache_put_nodes: "nodes (cache_put s k m now) = nodes s"
  by (simp add: cache_put_def)

lemma broadcast_effects:
  assumes "initialized s"
  shows "fst (snd (broadcastMessage s xmit now m)) =
           map (\<lambda>kv. Send Bluetooth (fst kv) m) (filter (\<lambda>kv. node_type (snd kv) = Bluetooth) (nodes s)) @
           map (\<lambda>kv. Send WifiDirect (fst kv) m) (filter (\<lambda>kv. node_type (snd kv) = WifiDirect) (nodes s))"
  using assms
  by (simp add: broadcastMessage_def initialized_def Let_def send_loop_targets cache_put_nodes
      split: option.split)

text \<open>
  C8. With identity set, \<^verbatim>\<open>broadcastMessage\<close> calls an adapter exactly once for every
  entry of the node registry, on that entry's own transport and with the message
  unchanged; the effects are these calls and nothing else. This holds whatever the
  single sends settle to (\<open>xmit\<close> is arbitrary), and the promise of
  \<^verbatim>\<open>broadcastMessage\<close> is fulfilled even when sends are rejected.
\<close>

theorem broadcast_fan_out:
  assumes "initialized s"
  shows "case broadcastMessage s xmit now m of (s', fx, p) \<Rightarrow>
           length fx = length (nodes s) \<and> sends fx = fx \<and>
           mset fx = mset (map (\<lambda>kv. Send (node_type (snd kv)) (fst kv) m) (nodes s)) \<and>
           p = Fulfilled ()"
proof -
  obtain s' fx p where r: "broadcastMessage s xmit now m = (s', fx, p)"
    by (cases "broadcastMessage s xmit now m") auto
  have fx: "fx =
      map (\<lambda>kv. Send Bluetooth (fst kv) m)
        (filter (\<lambda>kv. node_type (snd kv) = Bluetooth) (nodes s)) @
      map (\<lambda>kv. Send WifiDirect (fst kv) m)
        (filter (\<lambda>kv. node_type (snd kv) = WifiDirect) (nodes s))"
    using broadcast_effects [OF assms, of xmit now m] r by simp
  have len: "length fx = length (nodes s)"
    unfolding fx using transport_partition [of "nodes s"] by simp
  have ms: "mset fx = mset (map (\<lambda>kv. Send (node_type (snd kv)) (fst kv) m) (nodes s))"
    unfolding fx using transport_partition_mset [of m "nodes s"] by simp
  have sd: "sends fx = fx"
    unfolding fx sends_def by (simp add: filter_map comp_def)
  have p: "p = Fulfilled ()"
    using r assms by (simp add: broadcastMessage_def initialized_def Let_def allSettled_def)
  show ?thesis using r len ms sd p by simp
qed

theorem broadcast_fan_out_witness:
  "initialized ex_state \<and>
   (case broadcastMessage ex_state ex_xmit 1000 ex_message of (s', fx, p) \<Rightarrow>
      length fx = 2 \<and> sends fx = fx \<and> p = Fulfilled ())"
proof -
  have h: "initialized ex_state"
    by (rule ex_state_initialized)
  have n: "length (nodes ex_state) = 2"
    by (simp add: ex_state_eq)
  show ?thesis
    using h n broadcast_fan_out [OF h, where xmit = ex_xmit and now = 1000 and m = ex_message]
    by (auto split: prod.splits)
qed

subsection \<open>Shape of handleMessageReceived\<close>

lemma fan_out_length: "length (fan_out s m) = length (nodes s)"
  unfolding fan_out_def using transport_partition [of "nodes s"] by simp

lemma fan_out_sends: "sends (fan_out s m) = fan_out s m"
  unfolding fan_out_def sends_def by (simp add: filter_map comp_def)

lemma fan_out_events: "events (fan_out s m) = []"
  unfolding fan_out_def events_def by (simp add: filter_map comp_def)

lemma fan_out_cache_put: "fan_out (cache_put s k m' now) m = fan_out s m"
  by (simp add: fan_out_def cache_put_nodes)

lemma dispatch_events: "events (dispatch nodeId m) = dispatch nodeId m"
  by (simp add: dispatch_def events_def split: option.split)



lemma events_Nil: "events [] = []"
  by (simp add: events_def)


lemma events_append: "events (xs @ ys) = events xs @ events ys"
  by (simp add: events_def)

lemma sends_append: "sends (xs @ ys) = sends xs @ sends ys"
  by (simp add: sends_def)

lemma broadcast_initialized:
  assumes "initialized s"
  shows "broadcastMessage s xmit now m =
    ((case msg_id m of None \<Rightarrow> s
      | Some k \<Rightarrow> if k \<noteq> [] \<and> messages s k = None then cache_put s k m now else s),
     fan_out s m, Fulfilled ())"
  using assms
  by (simp add: broadcastMessage_def initialized_def Let_def send_loop_targets cache_put_nodes
      allSettled_def fan_out_def split: option.split)

lemma broadcast_uninitialized:
  assumes "\<not> initialized s"
  shows "broadcastMessage s xmit now m = (s, [], Fulfilled ())"
  using assms by (auto simp add: broadcastMessage_def initialized_def)

lemma cache_put_identity:
  "userId (cache_put s k m now) = userId s" "groupId (cache_put s k m now) = groupId s"
  "messages (cache_put s k m now) k = Some \<lparr>entry_message = m, expires = now + messageTimeout\<rparr>"
  by (simp_all add: cache_put_def)

lemma cache_put_initialized: "initialized (cache_put s k m now) = initialized s"
  by (simp add: initialized_def cache_put_identity)


lemma handle_other_group:
  assumes "truthy_str (msg_groupId m)" and "msg_groupId m \<noteq> groupId s"
  shows "handleMessageReceived s xmit tCache tRelay tBroadcast t nodeId m = (s, [])"
  using assms by (simp add: handleMessageReceived_def)

lemma handle_duplicate:
  assumes "is_duplicate s m"
  shows "handleMessageReceived s xmit tCache tRelay tBroadcast t nodeId m = (s, [])"
  using assms by (simp add: handleMessageReceived_def)

text \<open>The accepting path, for a message with a non-empty identifier and for one without.\<close>

lemma handle_accept_id:
  assumes "initialized s" and "\<not> (truthy_str (msg_groupId m) \<and> msg_groupId m \<noteq> groupId s)"
    and "msg_id m = Some k" and "k \<noteq> []" and "messages s k = None"
  shows "handleMessageReceived s xmit tCache tRelay tBroadcast t nodeId m =
           (cache_put s k m tCache,
            dispatch nodeId m @ (if relay_ok m tRelay then fan_out s m else []))"
proof -
  have nd: "\<not> is_duplicate s m"
    using assms by (simp add: is_duplicate_def)
  have i1: "initialized (cache_put s k m tCache)"
    using assms(1) by (simp add: cache_put_initialized)
  have b: "broadcastMessage (cache_put s k m tCache) xmit tBroadcast m =
             (cache_put s k m tCache, fan_out s m, Fulfilled ())"
    using assms(3,4) by (simp add: broadcast_initialized [OF i1] cache_put_identity fan_out_cache_put)
  show ?thesis
    using assms nd b by (auto simp add: handleMessageReceived_def initialized_def)
qed



lemma ex_nodes_fan_out:
  "fan_out ex_state m = [Send Bluetooth ''bt1'' m, Send WifiDirect ''wd1'' m]"
  by (simp add: fan_out_def ex_state_eq)

lemma ex_state_fields:
  "groupId ex_state = Some ''g1''" "messages ex_state k = None"
  by (simp_all add: ex_state_eq)

lemma ex_message_fields:
  "msg_id ex_message = Some ''m1''" "msg_type ex_message = Some ''message''"
  "msg_groupId ex_message = Some ''g1''" "msg_timestamp ex_message = Some 1000"
  "msg_ttl ex_message = Some 5000"
  by (simp_all add: ex_message_def)

lemma ex_foreign_fields:
  "msg_id ex_foreign = Some ''m2''" "msg_type ex_foreign = Some ''message''"
  "msg_groupId ex_foreign = Some ''g2''"
  by (simp_all add: ex_foreign_def ex_message_def)

lemma ex_blank_group_fields:
  "msg_id ex_blank_group = Some ''m3''" "msg_type ex_blank_group = Some ''message''"
  "msg_groupId ex_blank_group = Some []" "msg_timestamp ex_blank_group = Some 1000"
  "msg_ttl ex_blank_group = Some 5000"
  by (simp_all add: ex_blank_group_def ex_message_def)



subsection \<open>Deduplication\<close>

text \<open>
  C1 (as amended). Let the identity be set and let the message carry a non-empty
  identifier. When \<^verbatim>\<open>handleMessageReceived\<close> runs twice on that message, the second run
  changes nothing, notifies nothing and sends nothing (whoever delivers it, whenever).
  If moreover the identifier was not cached before the first run, the message's group
  is absent, empty or the active group, and its type is \<^verbatim>\<open>message\<close>, \<^verbatim>\<open>location\<close> or
  \<^verbatim>\<open>user\<close>, then the two runs together notify exactly one event: \<^verbatim>\<open>messageReceived\<close>,
  \<^verbatim>\<open>locationReceived\<close> or \<^verbatim>\<open>userInfo\<close> respectively.
\<close>

theorem dedup_idempotence:
  assumes "initialized s" and "msg_id m = Some k" and "k \<noteq> []"
  shows "case handleMessageReceived s xmit tCache tRelay tBroadcast t nodeId m of (s1, fx1) \<Rightarrow>
         case handleMessageReceived s1 xmit' tCache' tRelay' tBroadcast' t' nodeId' m of (s2, fx2) \<Rightarrow>
           fx2 = [] \<and> s2 = s1 \<and>
           (messages s k = None \<and>
            \<not> (truthy_str (msg_groupId m) \<and> msg_groupId m \<noteq> groupId s) \<longrightarrow>
              (msg_type m = Some ''message'' \<longrightarrow>
                 events (fx1 @ fx2) = [Notify (MessageReceived nodeId m)]) \<and>
              (msg_type m = Some ''location'' \<longrightarrow>
                 events (fx1 @ fx2) = [Notify (LocationReceived nodeId (msg_userId m) (msg_location m))]) \<and>
              (msg_type m = Some ''user'' \<longrightarrow>
                 events (fx1 @ fx2) = [Notify (UserInfo nodeId (msg_userId m) (msg_username m))]))"
proof -
  obtain s1 fx1 where r1: "handleMessageReceived s xmit tCache tRelay tBroadcast t nodeId m = (s1, fx1)"
    by (cases "handleMessageReceived s xmit tCache tRelay tBroadcast t nodeId m") auto
  have second: "handleMessageReceived s1 xmit' tCache' tRelay' tBroadcast' t' nodeId' m = (s1, [])"
  proof (cases "truthy_str (msg_groupId m) \<and> msg_groupId m \<noteq> groupId s")
    case True
    then have "s1 = s" using r1 handle_other_group [of m s] by simp
    then show ?thesis using True handle_other_group [of m s] by simp
  next
    case grp: False
    show ?thesis
    proof (cases "messages s k")
      case (Some e)
      then have d: "is_duplicate s m" using assms by (simp add: is_duplicate_def)
      then have "s1 = s" using r1 handle_duplicate [of s m] by simp
      then show ?thesis using d handle_duplicate [of s m] by simp
    next
      case None
      then have "s1 = cache_put s k m tCache"
        using r1 handle_accept_id [OF assms(1) grp assms(2,3)] by simp
      then have "is_duplicate s1 m"
        using assms by (simp add: is_duplicate_def cache_put_identity)
      then show ?thesis by (rule handle_duplicate)
    qed
  qed
  have first: "events fx1 = dispatch nodeId m"
    if "messages s k = None" and "\<not> (truthy_str (msg_groupId m) \<and> msg_groupId m \<noteq> groupId s)"
    using r1 handle_accept_id [OF assms(1) that(2) assms(2,3) that(1)]
    by (auto simp add: events_append dispatch_events fan_out_events events_Nil)
  show ?thesis
    using r1 second first by (auto simp add: dispatch_def)
qed

theorem dedup_idempotence_witness:
  "initialized ex_state \<and> msg_id ex_message = Some ''m1'' \<and> messages ex_state ''m1'' = None \<and>
   events (snd (handleMessageReceived ex_state ex_xmit 1100 1100 1100 Bluetooth ''bt1'' ex_message) @
           snd (handleMessageReceived
                  (fst (handleMessageReceived ex_state ex_xmit 1100 1100 1100 Bluetooth ''bt1'' ex_message))
                  ex_xmit 1200 1200 1200 WifiDirect ''wd1'' ex_message))
     = [Notify (MessageReceived ''bt1'' ex_message)] \<and>
   snd (handleMessageReceived
          (fst (handleMessageReceived ex_state ex_xmit 1100 1100 1100 Bluetooth ''bt1'' ex_message))
          ex_xmit 1200 1200 1200 WifiDirect ''wd1'' ex_message) = []"
proof -
  have h: "initialized ex_state" by (rule ex_state_initialized)
  have i: "msg_id ex_message = Some ''m1''" by (simp add: ex_message_fields)
  have g: "\<not> (truthy_str (msg_groupId ex_message) \<and> msg_groupId ex_message \<noteq> groupId ex_state)"
    by (simp add: ex_message_fields ex_state_fields)
  show ?thesis
    using h i g
      dedup_idempotence [OF h i, where xmit = ex_xmit and tCache = 1100 and tRelay = 1100
        and tBroadcast = 1100 and t = Bluetooth and nodeId = "''bt1''" and xmit' = ex_xmit
        and tCache' = 1200 and tRelay' = 1200 and tBroadcast' = 1200 and t' = WifiDirect
        and nodeId' = "''wd1''"]
    by (auto simp add: ex_state_fields ex_message_fields split: prod.splits)
qed

theorem dedup_idempotence_counterexample:
  "initialized ex_state \<and> msg_id ex_foreign = Some ''m2'' \<and> messages ex_state ''m2'' = None \<and>
   events (snd (handleMessageReceived ex_state ex_xmit 1100 1100 1100 Bluetooth ''bt1'' ex_foreign) @
           snd (handleMessageReceived
                  (fst (handleMessageReceived ex_state ex_xmit 1100 1100 1100 Bluetooth ''bt1'' ex_foreign))
                  ex_xmit 1200 1200 1200 WifiDirect ''wd1'' ex_foreign)) = []"
proof -
  have "handleMessageReceived s xmit a b c t n ex_foreign = (s, [])" if "groupId s = Some ''g1''"
    for s xmit a b c t n
    using that by (intro handle_other_group) (simp_all add: ex_foreign_fields truthy_str_def)
  then show ?thesis
    by (simp add: ex_state_initialized ex_foreign_fields ex_state_fields events_def)
qed

subsection \<open>Group isolation\<close>

text \<open>
  C2 (as amended). A received message whose \<^verbatim>\<open>groupId\<close> is a non-empty string different
  from the engine's group is dropped: the state, and so the message cache, is unchanged
  and there is no effect at all, neither an event nor a send.
\<close>

theorem group_isolation:
  assumes "msg_groupId m = Some g" and "g \<noteq> []" and "groupId s \<noteq> Some g"
  shows "handleMessageReceived s xmit tCache tRelay tBroadcast t nodeId m = (s, [])"
proof -
  have "truthy_str (msg_groupId m)"
    using assms(1,2) by (simp add: truthy_str_def)
  moreover have "msg_groupId m \<noteq> groupId s"
    using assms(1,3) by auto
  ultimately show ?thesis
    by (rule handle_other_group)
qed

theorem group_isolation_witness:
  "msg_groupId ex_foreign = Some ''g2'' \<and> groupId ex_state \<noteq> Some ''g2'' \<and>
   handleMessageReceived ex_state ex_xmit 1100 1100 1100 Bluetooth ''bt1'' ex_foreign
     = (ex_state, [])"
proof -
  have g: "msg_groupId ex_foreign = Some ''g2''" by (simp add: ex_foreign_fields)
  have n: "''g2'' \<noteq> []" by simp
  have a: "groupId ex_state \<noteq> Some ''g2''" by (simp add: ex_state_fields)
  show ?thesis
    using g a group_isolation [OF g n a, where xmit = ex_xmit and tCache = 1100
      and tRelay = 1100 and tBroadcast = 1100 and t = Bluetooth and nodeId = "''bt1''"]
    by simp
qed

theorem group_isolation_counterexample:
  "msg_groupId ex_blank_group \<noteq> None \<and> msg_groupId ex_blank_group \<noteq> groupId ex_state \<and>
   events (snd (handleMessageReceived ex_state ex_xmit 1100 1100 1100 Bluetooth ''bt1'' ex_blank_group))
     = [Notify (MessageReceived ''bt1'' ex_blank_group)] \<and>
   messages (fst (handleMessageReceived ex_state ex_xmit 1100 1100 1100 Bluetooth ''bt1'' ex_blank_group)) ''m3''
     = Some \<lparr>entry_message = ex_blank_group, expires = 61100\<rparr> \<and>
   sends (snd (handleMessageReceived ex_state ex_xmit 1100 1100 1100 Bluetooth ''bt1'' ex_blank_group))
     = [Send Bluetooth ''bt1'' ex_blank_group, Send WifiDirect ''wd1'' ex_blank_group]"
proof -
  have g: "\<not> (truthy_str (msg_groupId ex_blank_group) \<and> msg_groupId ex_blank_group \<noteq> groupId ex_state)"
    by (simp add: ex_blank_group_fields truthy_str_def)
  have i: "msg_id ex_blank_group = Some ''m3''" by (simp add: ex_blank_group_fields)
  have r: "relay_ok ex_blank_group 1100"
    by (simp add: relay_ok_def truthy_num_def ex_blank_group_fields)
  have "handleMessageReceived ex_state ex_xmit 1100 1100 1100 Bluetooth ''bt1'' ex_blank_group =
          (cache_put ex_state ''m3'' ex_blank_group 1100,
           dispatch ''bt1'' ex_blank_group @ fan_out ex_state ex_blank_group)"
    using handle_accept_id [OF ex_state_initialized g i, where tRelay = 1100] r
    by (simp add: ex_state_fields)
  then show ?thesis
    by (simp add: ex_blank_group_fields ex_state_fields cache_put_identity messageTimeout_def
        dispatch_def ex_nodes_fan_out events_def sends_def)
qed

subsection \<open>Relay and time to live\<close>



subsection \<open>Expiry of a cache entry\<close>

text \<open>
  C4 (as amended). When \<^verbatim>\<open>handleMessageReceived\<close> accepts a message with a non-empty
  identifier, the cache entry it creates expires at the processing time plus the
  engine's fixed \<^verbatim>\<open>messageTimeout\<close> of 60000 ms, whatever the message's own ttl is.
\<close>

theorem cache_expiry_fixed_timeout:
  assumes "initialized s" and "msg_id m = Some k" and "k \<noteq> []" and "messages s k = None"
    and "\<not> (truthy_str (msg_groupId m) \<and> msg_groupId m \<noteq> groupId s)"
  shows "messages (fst (handleMessageReceived s xmit tCache tRelay tBroadcast t nodeId m)) k =
           Some \<lparr>entry_message = m, expires = tCache + 60000\<rparr>"
  using handle_accept_id [OF assms(1,5,2,3,4), of xmit tCache tRelay tBroadcast t nodeId]
  by (simp add: cache_put_identity messageTimeout_def)

theorem cache_expiry_fixed_timeout_witness:
  "initialized ex_state \<and> msg_id ex_message = Some ''m1'' \<and> messages ex_state ''m1'' = None \<and>
   msg_groupId ex_message = groupId ex_state \<and>
   messages (fst (handleMessageReceived ex_state ex_xmit 1100 1100 1100 Bluetooth ''bt1'' ex_message)) ''m1''
     = Some \<lparr>entry_message = ex_message, expires = 61100\<rparr>"
proof -
  have h: "initialized ex_state" by (rule ex_state_initialized)
  have i: "msg_id ex_message = Some ''m1''" by (simp add: ex_message_fields)
  have n: "''m1'' \<noteq> []" by simp
  have c: "messages ex_state ''m1'' = None" by (simp add: ex_state_fields)
  have g: "\<not> (truthy_str (msg_groupId ex_message) \<and> msg_groupId ex_message \<noteq> groupId ex_state)"
    by (simp add: ex_message_fields ex_state_fields)
  show ?thesis
    using h i c
      cache_expiry_fixed_timeout [OF h i n c g, where xmit = ex_xmit and tCache = 1100
        and tRelay = 1100 and tBroadcast = 1100 and t = Bluetooth and nodeId = "''bt1''"]
    by (simp add: ex_message_fields ex_state_fields)
qed

theorem cache_expiry_counterexample:
  "msg_ttl ex_message = Some 5000 \<and>
   map_option expires
     (messages (fst (handleMessageReceived ex_state ex_xmit 1100 1100 1100 Bluetooth ''bt1'' ex_message)) ''m1'')
     = Some 61100 \<and>
   (61100::int) \<noteq> 1100 + 5000"
proof -
  have g: "\<not> (truthy_str (msg_groupId ex_message) \<and> msg_groupId ex_message \<noteq> groupId ex_state)"
    by (simp add: ex_message_fields ex_state_fields)
  have i: "msg_id ex_message = Some ''m1''" by (simp add: ex_message_fields)
  have "fst (handleMessageReceived ex_state ex_xmit 1100 1100 1100 Bluetooth ''bt1'' ex_message) =
          cache_put ex_state ''m1'' ex_message 1100"
    using handle_accept_id [OF ex_state_initialized g i, where tRelay = 1100]
    by (simp add: ex_state_fields)
  then show ?thesis
    by (simp add: ex_message_fields cache_put_identity messageTimeout_def)
qed

subsection \<open>Messages without a recognised type\<close>





subsection \<open>Messages without a group\<close>



subsection \<open>Operations before initialize\<close>

text \<open>
  C5 (as amended). While the identity is unset (user or group missing or empty),
  \<^verbatim>\<open>sendMessage\<close> throws the error \<^verbatim>\<open>Mesh network not initialized\<close> before it touches
  the state, so the message cache is unchanged; \<^verbatim>\<open>broadcastMessage\<close> raises no error:
  it returns at once, its promise fulfilled, with the state unchanged and no send.
\<close>

theorem not_initialized_gate:
  assumes "\<not> initialized s"
  shows "sendMessage s xmit tId rnd tStamp tExpires tBroadcast content =
           Inl (Error ''Mesh network not initialized'') \<and>
         broadcastMessage s xmit' now m = (s, [], Fulfilled ())"
proof
  show "sendMessage s xmit tId rnd tStamp tExpires tBroadcast content =
          Inl (Error ''Mesh network not initialized'')"
    using assms by (auto simp add: sendMessage_def initialized_def)
  show "broadcastMessage s xmit' now m = (s, [], Fulfilled ())"
    using assms by (rule broadcast_uninitialized)
qed

theorem not_initialized_gate_witness:
  "\<not> initialized constructor \<and>
   sendMessage constructor ex_xmit 1000 ''k3x9'' 1000 1000 1000 ''hi'' =
     Inl (Error ''Mesh network not initialized'') \<and>
   broadcastMessage constructor ex_xmit 1000 ex_message = (constructor, [], Fulfilled ())"
  using constructor_uninitialized
    not_initialized_gate [OF constructor_uninitialized, where xmit = ex_xmit and tId = 1000
      and rnd = "''k3x9''" and tStamp = 1000 and tExpires = 1000 and tBroadcast = 1000
      and content = "''hi''" and xmit' = ex_xmit and now = 1000 and m = ex_message]
  by simp

theorem not_initialized_gate_counterexample:
  "\<not> initialized constructor \<and>
   snd (snd (broadcastMessage constructor ex_xmit 1000 ex_message)) = Fulfilled () \<and>
   snd (snd (broadcastMessage constructor ex_xmit 1000 ex_message)) \<noteq>
     Rejected (Error ''Mesh network not initialized'')"
  by (simp add: constructor_uninitialized broadcast_uninitialized [OF constructor_uninitialized])

subsection \<open>startNetworking\<close>

text \<open>What the adapters do with the native answers.\<close>

lemma bt_startScan_result:
  "snd (bt_startScan env a) = Fulfilled ()"
  "isInitialized (fst (bt_startScan env a)) = isInitialized a"
  "isDiscovering (fst (bt_startScan env a)) = isDiscovering a"
  "isScanning (fst (bt_startScan env a)) =
     (btRequestPermissions env = Fulfilled True \<and>
      (isScanning a \<or> btStartDeviceScan env = Fulfilled ()))"
  by (auto simp add: bt_startScan_def split: promise.splits)

lemma wifi_isAvailable_iff:
  "wifi_isAvailable a answer = (isInitialized a \<and> answer = Fulfilled True)"
  by (auto simp add: wifi_isAvailable_def split: promise.splits)

lemma wifi_requestPermissions_iff:
  "wifi_requestPermissions a answer = (isInitialized a \<and> answer = Fulfilled True)"
  by (auto simp add: wifi_requestPermissions_def split: promise.splits)

lemma wifi_startDiscovery_ok:
  assumes "isInitialized a" and "wifiIsAvailableAgain env = Fulfilled True"
    and "wifiRequestPermissions env = Fulfilled True" and "wifiStartDiscovery env = Fulfilled ()"
  shows "wifi_startDiscovery env a = (a\<lparr>isDiscovering := True\<rparr>, Fulfilled True)"
  using assms
  by (simp add: wifi_startDiscovery_def wifi_isAvailable_iff wifi_requestPermissions_iff)

lemma wifi_startDiscovery_fails:
  assumes "isInitialized a"
    and "\<not> (wifiIsAvailableAgain env = Fulfilled True \<and>
            wifiRequestPermissions env = Fulfilled True \<and> wifiStartDiscovery env = Fulfilled ())"
  shows "\<exists>e. wifi_startDiscovery env a = (a\<lparr>isDiscovering := False\<rparr>, Rejected e)"
  using assms
  by (cases "wifiStartDiscovery env")
     (auto simp add: wifi_startDiscovery_def wifi_isAvailable_iff wifi_requestPermissions_iff)

text \<open>
  C6 (as amended). \<^verbatim>\<open>startNetworking\<close> notifies exactly one event. When Wi-Fi Direct
  does not report itself available, the event is \<^verbatim>\<open>networkingStarted\<close> with the map
  \<^verbatim>\<open>{bluetooth: true, wifiDirect: false}\<close> and the result is \<^verbatim>\<open>true\<close>; when it does and
  its discovery starts, the event is \<^verbatim>\<open>networkingStarted\<close> with both flags true; when
  it does and its discovery fails (no longer available, permissions refused, native
  error), the event is \<^verbatim>\<open>networkingError\<close> and the result is \<^verbatim>\<open>false\<close>, whether or
  not the Bluetooth scan is running. A failure of the Bluetooth scan is never reported:
  the scan runs afterwards exactly when the Bluetooth permissions were granted and the
  scan was running already or could be started.
\<close>

theorem startNetworking_outcome:
  "case startNetworking env a of (a', fx, ok) \<Rightarrow>
     isScanning a' =
       (btRequestPermissions env = Fulfilled True \<and>
        (isScanning a \<or> btStartDeviceScan env = Fulfilled ())) \<and>
     (if isInitialized a \<and> wifiIsAvailable env = Fulfilled True then
        if wifiIsAvailableAgain env = Fulfilled True \<and>
           wifiRequestPermissions env = Fulfilled True \<and> wifiStartDiscovery env = Fulfilled ()
        then fx = [Notify (NetworkingStarted True True)] \<and> ok \<and> isDiscovering a'
        else (\<exists>e. fx = [Notify (NetworkingError e)]) \<and> \<not> ok \<and> \<not> isDiscovering a'
      else fx = [Notify (NetworkingStarted True False)] \<and> ok \<and>
           isDiscovering a' = isDiscovering a)"
proof -
  obtain a1 where bt: "bt_startScan env a = (a1, Fulfilled ())"
    using bt_startScan_result(1) [of env a] by (cases "bt_startScan env a") auto
  have a1: "isInitialized a1 = isInitialized a" "isDiscovering a1 = isDiscovering a"
    "isScanning a1 =
       (btRequestPermissions env = Fulfilled True \<and>
        (isScanning a \<or> btStartDeviceScan env = Fulfilled ()))"
    using bt bt_startScan_result(2,3,4) [of env a] by simp_all
  show ?thesis
  proof (cases "isInitialized a \<and> wifiIsAvailable env = Fulfilled True")
    case False
    then have "\<not> wifi_isAvailable a1 (wifiIsAvailable env)"
      by (simp add: wifi_isAvailable_iff a1)
    then show ?thesis
      using False bt a1 by (simp add: startNetworking_def)
  next
    case avail: True
    then have w: "wifi_isAvailable a1 (wifiIsAvailable env)"
      by (simp add: wifi_isAvailable_iff a1)
    have i1: "isInitialized a1" using avail a1 by simp
    show ?thesis
    proof (cases "wifiIsAvailableAgain env = Fulfilled True \<and>
        wifiRequestPermissions env = Fulfilled True \<and> wifiStartDiscovery env = Fulfilled ()")
      case True
      then have "wifi_startDiscovery env a1 = (a1\<lparr>isDiscovering := True\<rparr>, Fulfilled True)"
        using wifi_startDiscovery_ok [OF i1] by simp
      then show ?thesis
        using avail True bt w a1 by (simp add: startNetworking_def)
    next
      case False
      then obtain e where "wifi_startDiscovery env a1 = (a1\<lparr>isDiscovering := False\<rparr>, Rejected e)"
        using wifi_startDiscovery_fails [OF i1] by blast
      then show ?thesis
        using avail False bt w a1 by (simp add: startNetworking_def)
    qed
  qed
qed

theorem startNetworking_outcome_witness:
  "isInitialized ex_adapters \<and> wifiIsAvailable ex_env = Fulfilled True \<and>
   (case startNetworking ex_env ex_adapters of (a', fx, ok) \<Rightarrow>
      isScanning a' \<and> isDiscovering a' \<and> fx = [Notify (NetworkingStarted True True)] \<and> ok)"
  using startNetworking_outcome [of ex_env ex_adapters]
  by (auto simp add: ex_env_def ex_adapters_def split: prod.splits)

theorem startNetworking_counterexample:
  "isScanning (fst (startNetworking ex_env_denied ex_adapters)) \<and>
   fst (snd (startNetworking ex_env_denied ex_adapters)) =
     [Notify (NetworkingError (Error ''WiFi Direct permissions not granted''))] \<and>
   \<not> snd (snd (startNetworking ex_env_denied ex_adapters))"
  by (simp add: startNetworking_def bt_startScan_def wifi_isAvailable_def wifi_startDiscovery_def
      wifi_requestPermissions_def ex_env_denied_def ex_env_def ex_adapters_def)

subsection \<open>sendMessage\<close>

text \<open>The identifier determines the clock reading and the random suffix it was made from.\<close>

lemma digit_char: "n < 10 \<Longrightarrow> of_char (char_of (48 + n)) = 48 + (n::nat)"
  by (simp add: of_char_of)

lemma digits_value:
  "foldl (\<lambda>v c. 10 * v + (of_char c - 48)) 0 (digits n) = n"
proof (induction n rule: digits.induct)
  case (1 n)
  show ?case
  proof (cases "n < 10")
    case True
    then show ?thesis
      by (subst digits.simps) (simp add: digit_char)
  next
    case False
    have "n mod 10 < 10" by simp
    then have d: "of_char (char_of (48 + n mod 10)) = 48 + n mod 10"
      by (rule digit_char)
    show ?thesis
      using False "1.IH" d by (subst digits.simps) simp
  qed
qed

lemma digits_inj:
  assumes "digits a = digits b"
  shows "a = b"
proof -
  have "foldl (\<lambda>v c. 10 * v + (of_char c - 48)) (0::nat) (digits a) =
        foldl (\<lambda>v c. 10 * v + (of_char c - 48)) 0 (digits b)"
    using assms by (rule arg_cong)
  then show ?thesis
    by (simp only: digits_value)
qed

lemma digits_nonempty: "digits n \<noteq> []"
  by (subst digits.simps) simp

lemma digit_not_dash: "n < 10 \<Longrightarrow> char_of (48 + (n::nat)) \<noteq> CHR ''-''"
proof
  assume "n < 10" and "char_of (48 + n) = CHR ''-''"
  then have "of_char (char_of (48 + n)) = (of_char CHR ''-'' :: nat)" by simp
  with \<open>n < 10\<close> show False by (simp add: digit_char)
qed

lemma digits_no_dash: "CHR ''-'' \<notin> set (digits n)"
proof (induction n rule: digits.induct)
  case (1 n)
  show ?case
  proof (cases "n < 10")
    case True
    then show ?thesis
      using digit_not_dash [of n] by (subst digits.simps) auto
  next
    case False
    have "n mod 10 < 10" by simp
    then have "char_of (48 + n mod 10) \<noteq> CHR ''-''" by (rule digit_not_dash)
    then show ?thesis
      using False "1.IH" by (subst digits.simps) auto
  qed
qed

lemma split_at_dash:
  assumes "xs @ CHR ''-'' # r = ys @ CHR ''-'' # r'"
    and "CHR ''-'' \<notin> set xs" and "CHR ''-'' \<notin> set ys"
  shows "xs = ys \<and> r = r'"
proof -
  have "takeWhile (\<lambda>c. c \<noteq> CHR ''-'') (xs @ CHR ''-'' # r) = xs"
    using assms(2) by (auto simp add: takeWhile_tail takeWhile_eq_all_conv)
  moreover have "takeWhile (\<lambda>c. c \<noteq> CHR ''-'') (ys @ CHR ''-'' # r') = ys"
    using assms(3) by (auto simp add: takeWhile_tail takeWhile_eq_all_conv)
  ultimately have "xs = ys" using assms(1) by simp
  then show ?thesis using assms(1) by simp
qed

lemma toString_dash_inj:
  assumes "toString a @ CHR ''-'' # r = toString b @ CHR ''-'' # r'"
  shows "a = b \<and> r = r'"
proof -
  consider "a < 0" "b < 0" | "0 \<le> a" "0 \<le> b" | "a < 0" "0 \<le> b" | "0 \<le> a" "b < 0"
    by linarith
  then show ?thesis
  proof cases
    case 1
    then have "digits (nat (- a)) @ CHR ''-'' # r = digits (nat (- b)) @ CHR ''-'' # r'"
      using assms by (simp add: toString_def)
    then have "digits (nat (- a)) = digits (nat (- b)) \<and> r = r'"
      by (rule split_at_dash) (rule digits_no_dash)+
    then show ?thesis using 1 digits_inj [of "nat (- a)" "nat (- b)"] by auto
  next
    case 2
    then have "digits (nat a) @ CHR ''-'' # r = digits (nat b) @ CHR ''-'' # r'"
      using assms by (simp add: toString_def)
    then have "digits (nat a) = digits (nat b) \<and> r = r'"
      by (rule split_at_dash) (rule digits_no_dash)+
    then show ?thesis using 2 digits_inj [of "nat a" "nat b"] by auto
  next
    case 3
    then have e: "CHR ''-'' # digits (nat (- a)) @ CHR ''-'' # r = digits (nat b) @ CHR ''-'' # r'"
      using assms by (simp add: toString_def)
    obtain c cs where c: "digits (nat b) = c # cs"
      using digits_nonempty [of "nat b"] by (cases "digits (nat b)") auto
    then have "c = CHR ''-''" using e by simp
    then show ?thesis using c digits_no_dash [of "nat b"] by auto
  next
    case 4
    then have e: "digits (nat a) @ CHR ''-'' # r = CHR ''-'' # digits (nat (- b)) @ CHR ''-'' # r'"
      using assms by (simp add: toString_def)
    obtain c cs where c: "digits (nat a) = c # cs"
      using digits_nonempty [of "nat a"] by (cases "digits (nat a)") auto
    then have "c = CHR ''-''" using e by simp
    then show ?thesis using c digits_no_dash [of "nat a"] by auto
  qed
qed

lemma new_id_inj:
  assumes "new_id s tId rnd = new_id s tId' rnd'"
  shows "tId = tId' \<and> rnd = rnd'"
  using assms toString_dash_inj [of tId rnd tId' rnd'] by (simp add: new_id_def)

text \<open>The result of \<^verbatim>\<open>sendMessage\<close> once the identity is set.\<close>

lemma sendMessage_initialized:
  assumes "initialized s"
  shows "sendMessage s xmit tId rnd tStamp tExpires tBroadcast content =
           Inr (cache_put s (new_id s tId rnd) (messageData s tId rnd tStamp content) tExpires,
                fan_out s (messageData s tId rnd tStamp content) @
                  [Notify (MessageSent (messageData s tId rnd tStamp content))],
                new_id s tId rnd)"
proof -
  let ?k = "new_id s tId rnd"
  let ?md = "messageData s tId rnd tStamp content"
  let ?s1 = "cache_put s ?k ?md tExpires"
  have i1: "initialized ?s1"
    using assms by (simp add: cache_put_initialized)
  have id: "msg_id ?md = Some ?k"
    by (simp add: messageData_def)
  have b: "broadcastMessage ?s1 xmit tBroadcast ?md = (?s1, fan_out s ?md, Fulfilled ())"
    using id by (simp add: broadcast_initialized [OF i1] cache_put_identity fan_out_cache_put)
  show ?thesis
    using assms b by (auto simp add: sendMessage_def initialized_def Let_def)
qed

lemma ex_state_cached_eq:
  "ex_state_cached = cache_put ex_state ''u1-1000-k3x9'' ex_echo 900"
proof -
  have g: "\<not> (truthy_str (msg_groupId ex_echo) \<and> msg_groupId ex_echo \<noteq> groupId ex_state)"
    by (simp add: ex_echo_def ex_message_fields ex_state_fields)
  have i: "msg_id ex_echo = Some ''u1-1000-k3x9''"
    by (simp add: ex_echo_def)
  show ?thesis
    unfolding ex_state_cached_def
    using handle_accept_id [OF ex_state_initialized g i, where tCache = 900]
    by (simp add: ex_state_fields)
qed

lemma ex_new_id: "new_id ex_state 1000 ''k3x9'' = ''u1-1000-k3x9''"
  by code_simp

text \<open>
  C7 (as amended). With identity set, \<^verbatim>\<open>sendMessage(content)\<close> builds a message of type
  \<^verbatim>\<open>message\<close> whose identifier is made from the user id, the clock and the random
  suffix (no other clock reading or suffix gives the same identifier), whose timestamp
  is the clock reading and whose ttl is 60000. The identifier is not compared with the
  cache: the message is stored under it with expiry 60000 after the clock reading,
  replacing whatever entry was there, and every other entry is unchanged. An adapter is
  called once for every node, then \<^verbatim>\<open>messageSent\<close> is notified with the message, and the
  identifier is returned.
\<close>

theorem sendMessage_postcondition:
  assumes "initialized s"
  shows "case sendMessage s xmit tId rnd tStamp tExpires tBroadcast content of
           Inl e \<Rightarrow> False
         | Inr (s', fx, k) \<Rightarrow>
             k = new_id s tId rnd \<and>
             (\<forall>tId' rnd'. new_id s tId' rnd' = k \<longrightarrow> tId' = tId \<and> rnd' = rnd) \<and>
             messages s' k =
               Some \<lparr>entry_message = messageData s tId rnd tStamp content,
                     expires = tExpires + 60000\<rparr> \<and>
             (\<forall>k'. k' \<noteq> k \<longrightarrow> messages s' k' = messages s k') \<and>
             nodes s' = nodes s \<and>
             fx = fan_out s (messageData s tId rnd tStamp content) @
                  [Notify (MessageSent (messageData s tId rnd tStamp content))] \<and>
             length (sends fx) = length (nodes s) \<and>
             events fx = [Notify (MessageSent (messageData s tId rnd tStamp content))] \<and>
             messageData s tId rnd tStamp content =
               \<lparr>msg_id = Some k, msg_type = Some ''message'', msg_userId = userId s,
                msg_username = username s, msg_groupId = groupId s,
                msg_content = Some content, msg_location = None,
                msg_timestamp = Some tStamp, msg_ttl = Some 60000\<rparr>"
proof -
  let ?k = "new_id s tId rnd"
  let ?md = "messageData s tId rnd tStamp content"
  let ?s1 = "cache_put s ?k ?md tExpires"
  let ?fx = "fan_out s ?md @ [Notify (MessageSent ?md)]"
  have i1: "initialized ?s1"
    using assms by (simp add: cache_put_initialized)
  have id: "msg_id ?md = Some ?k"
    by (simp add: messageData_def)
  have b: "broadcastMessage ?s1 xmit tBroadcast ?md = (?s1, fan_out s ?md, Fulfilled ())"
    using id by (simp add: broadcast_initialized [OF i1] cache_put_identity fan_out_cache_put)
  have r: "sendMessage s xmit tId rnd tStamp tExpires tBroadcast content = Inr (?s1, ?fx, ?k)"
    using assms b by (auto simp add: sendMessage_def initialized_def Let_def)
  have fresh: "\<forall>tId' rnd'. new_id s tId' rnd' = ?k \<longrightarrow> tId' = tId \<and> rnd' = rnd"
    using new_id_inj [of s] by blast
  have entry: "messages ?s1 ?k = Some \<lparr>entry_message = ?md, expires = tExpires + 60000\<rparr>"
    by (simp add: cache_put_identity messageTimeout_def)
  have other: "\<forall>k'. k' \<noteq> ?k \<longrightarrow> messages ?s1 k' = messages s k'"
    by (simp add: cache_put_def)
  have nd: "nodes ?s1 = nodes s"
    by (rule cache_put_nodes)
  have sd: "length (sends ?fx) = length (nodes s)"
    by (simp add: sends_append fan_out_sends fan_out_length) (simp add: sends_def)
  have ev: "events ?fx = [Notify (MessageSent ?md)]"
    by (simp add: events_append fan_out_events) (simp add: events_def)
  have md: "?md = \<lparr>msg_id = Some ?k, msg_type = Some ''message'', msg_userId = userId s,
                        msg_username = username s, msg_groupId = groupId s,
                        msg_content = Some content, msg_location = None,
                        msg_timestamp = Some tStamp, msg_ttl = Some 60000\<rparr>"
    by (simp add: messageData_def messageTimeout_def)
  have "?k = new_id s tId rnd \<and>
        (\<forall>tId' rnd'. new_id s tId' rnd' = ?k \<longrightarrow> tId' = tId \<and> rnd' = rnd) \<and>
        messages ?s1 ?k = Some \<lparr>entry_message = ?md, expires = tExpires + 60000\<rparr> \<and>
        (\<forall>k'. k' \<noteq> ?k \<longrightarrow> messages ?s1 k' = messages s k') \<and>
        nodes ?s1 = nodes s \<and> ?fx = ?fx \<and> length (sends ?fx) = length (nodes s) \<and>
        events ?fx = [Notify (MessageSent ?md)] \<and>
        ?md = \<lparr>msg_id = Some ?k, msg_type = Some ''message'', msg_userId = userId s,
                        msg_username = username s, msg_groupId = groupId s,
                        msg_content = Some content, msg_location = None,
                        msg_timestamp = Some tStamp, msg_ttl = Some 60000\<rparr>"
    using fresh entry other nd sd ev md by (intro conjI) (rule refl | assumption)+
  then show ?thesis
    unfolding r sum.case prod.case .
qed

theorem sendMessage_postcondition_witness:
  "initialized ex_state \<and>
   (case sendMessage ex_state ex_xmit 1000 ''k3x9'' 1001 1002 1003 ''hi'' of
      Inl e \<Rightarrow> False
    | Inr (s', fx, k) \<Rightarrow>
        k = ''u1-1000-k3x9'' \<and>
        map_option expires (messages s' k) = Some 61002 \<and>
        length (sends fx) = 2 \<and> length (events fx) = 1)"
proof -
  have h: "initialized ex_state" by (rule ex_state_initialized)
  have k: "new_id ex_state 1000 ''k3x9'' = ''u1-1000-k3x9''"
    by code_simp
  have n: "length (nodes ex_state) = 2" by (simp add: ex_state_eq)
  note post = sendMessage_postcondition [OF h, where xmit = ex_xmit and tId = 1000
    and rnd = "''k3x9''" and tStamp = 1001 and tExpires = 1002 and tBroadcast = 1003
    and content = "''hi''"]
  show ?thesis
  proof (cases "sendMessage ex_state ex_xmit 1000 ''k3x9'' 1001 1002 1003 ''hi''")
    case (Inl e)
    show ?thesis using post unfolding Inl sum.case by (rule FalseE)
  next
    case (Inr r)
    obtain s' fx k' where r: "r = (s', fx, k')" by (cases r) auto
    have "k' = new_id ex_state 1000 ''k3x9'' \<and>
          messages s' k' =
            Some \<lparr>entry_message = messageData ex_state 1000 ''k3x9'' 1001 ''hi'',
                  expires = 1002 + 60000\<rparr> \<and>
          length (sends fx) = length (nodes ex_state) \<and>
          events fx = [Notify (MessageSent (messageData ex_state 1000 ''k3x9'' 1001 ''hi''))]"
      using post unfolding Inr r sum.case prod.case by (elim conjE) (intro conjI; assumption)
    then show ?thesis
      unfolding Inr r sum.case prod.case using h k n by auto
  qed
qed

theorem sendMessage_fresh_counterexample:
  "initialized ex_state_cached \<and>
   messages ex_state_cached ''u1-1000-k3x9'' = Some \<lparr>entry_message = ex_echo, expires = 60900\<rparr> \<and>
   \<not> isl (sendMessage ex_state_cached ex_xmit 1000 ''k3x9'' 1001 1002 1003 ''hi'') \<and>
   snd (snd (projr (sendMessage ex_state_cached ex_xmit 1000 ''k3x9'' 1001 1002 1003 ''hi'')))
     = ''u1-1000-k3x9''"
proof -
  have h: "initialized ex_state_cached"
    by (simp add: ex_state_cached_eq cache_put_initialized ex_state_initialized)
  have c: "messages ex_state_cached ''u1-1000-k3x9'' =
             Some \<lparr>entry_message = ex_echo, expires = 60900\<rparr>"
    by (simp add: ex_state_cached_eq cache_put_identity messageTimeout_def)
  have k: "new_id ex_state_cached 1000 ''k3x9'' = ''u1-1000-k3x9''"
    using ex_new_id by (simp add: new_id_def ex_state_cached_eq cache_put_identity)
  show ?thesis
    using h c k by (simp add: sendMessage_initialized [OF h])
qed

end
